theory Spec2Isabelle
  imports Complex_Main "HOL-Library.Char_ord" "HOL-Library.List_Lexorder"
begin

section \<open>Identities, time, errors\<close>

text \<open>
  An identity is the string form of an ObjectId: the source compares identities with
  \<^verbatim>\<open>a.toString() === b.toString()\<close> everywhere, and the gateway binds
  \<^verbatim>\<open>socket.userId = user._id.toString()\<close>. A date is a number of milliseconds.
  A fresh ObjectId and the reading of the clock (\<^verbatim>\<open>new Date()\<close>, \<^verbatim>\<open>Date.now\<close>)
  are inputs of the operations that need them.
\<close>

type_synonym objectId = string
type_synonym date = int

text \<open>
  The source throws plain \<^verbatim>\<open>Error\<close> objects that differ in their message only. Each
  constructor stands for one of them; \<open>error_message\<close> gives the text the gateway puts
  in its reply.
\<close>

datatype error =
    ParticipantCount
  | AlreadyMember
  | CapacityExceeded
  | NotAMember
  | NullConversation
  | ValidationFailure
  | TypeError

fun error_message :: "error \<Rightarrow> string" where
  "error_message ParticipantCount = ''Conversation must have exactly 2 participants''"
| "error_message AlreadyMember = ''User is already a member of this room''"
| "error_message CapacityExceeded = ''Room has reached maximum capacity''"
| "error_message NotAMember = ''User is not a member of this room''"
| "error_message NullConversation = ''Cannot read properties of null (reading participants)''"
| "error_message ValidationFailure = ''Message validation failed''"
| "error_message TypeError = ''Cannot read properties of undefined (reading toString)''"

text \<open>
  \<^verbatim>\<open>xs.find(p)\<close> followed by an assignment to a field of the element found changes
  the first element that satisfies \<open>p\<close>, in place.
\<close>

fun update_first :: "('a \<Rightarrow> bool) \<Rightarrow> ('a \<Rightarrow> 'a) \<Rightarrow> 'a list \<Rightarrow> 'a list" where
  "update_first p f [] = []"
| "update_first p f (x # xs) = (if p x then f x # xs else x # update_first p f xs)"

section \<open>Conversation\<close>

text \<open>
  The entries \<^verbatim>\<open>{user, count}\<close>, \<^verbatim>\<open>{user, archived}\<close> and \<^verbatim>\<open>{user, pinned}\<close> are
  pairs, the user first: every entry the code creates (in the pre-save hook, or pushed by
  a method for the user it was called with) carries its user. \<open>isNew\<close> is the flag
  Mongoose keeps on a document that was never saved. A count is a JavaScript number that
  only ever holds an integer here.
\<close>

record conversation_doc =
  c_id :: objectId
  participants :: "objectId list"
  lastMessage :: "objectId option"
  lastMessageAt :: date
  unreadCount :: "(objectId \<times> int) list"
  isArchived :: "(objectId \<times> bool) list"
  isPinned :: "(objectId \<times> bool) list"
  typingUsers :: "objectId list"
  isNew :: bool

text \<open>
  The pre-save hook. It calls \<^verbatim>\<open>next(new Error(...))\<close> when the participant count is not
  2 and, having no \<^verbatim>\<open>return\<close> there, goes on to initialise a new document and to call
  \<^verbatim>\<open>next()\<close> once more. The model returns the calls of \<^verbatim>\<open>next\<close> in order, with the
  document as the hook leaves it.
\<close>

definition pre_save :: "conversation_doc \<Rightarrow> error option list \<times> conversation_doc" where
  "pre_save c =
     (let calls = (if length (participants c) \<noteq> 2 then [Some ParticipantCount] else []);
          c' = (if isNew c
                then c\<lparr>unreadCount := map (\<lambda>userId. (userId, 0)) (participants c),
                       isArchived := map (\<lambda>userId. (userId, False)) (participants c),
                       isPinned := map (\<lambda>userId. (userId, False)) (participants c)\<rparr>
                else c)
      in (calls @ [None], c'))"

text \<open>
  \<^verbatim>\<open>save()\<close>: the middleware runner takes the first call of \<^verbatim>\<open>next\<close> and ignores later
  ones; an error there rejects the save, otherwise the document is written and is no
  longer new.
\<close>

definition save :: "conversation_doc \<Rightarrow> error + conversation_doc" where
  "save c =
     (case pre_save c of
        (Some e # _, _) \<Rightarrow> Inl e
      | (_, c') \<Rightarrow> Inr (c'\<lparr>isNew := False\<rparr>))"

definition getOtherParticipant :: "conversation_doc \<Rightarrow> objectId \<Rightarrow> objectId option" where
  "getOtherParticipant c userId = find (\<lambda>i. i \<noteq> userId) (participants c)"

definition updateLastMessage :: "conversation_doc \<Rightarrow> objectId \<Rightarrow> date \<Rightarrow> error + conversation_doc" where
  "updateLastMessage c messageId now = save (c\<lparr>lastMessage := Some messageId, lastMessageAt := now\<rparr>)"

definition incrementUnread :: "conversation_doc \<Rightarrow> objectId \<Rightarrow> error + conversation_doc" where
  "incrementUnread c userId =
     save (case find (\<lambda>u. fst u = userId) (unreadCount c) of
             Some unread \<Rightarrow>
               c\<lparr>unreadCount := update_first (\<lambda>u. fst u = userId) (\<lambda>u. (fst u, snd u + 1)) (unreadCount c)\<rparr>
           | None \<Rightarrow> c\<lparr>unreadCount := unreadCount c @ [(userId, 1)]\<rparr>)"

definition resetUnread :: "conversation_doc \<Rightarrow> objectId \<Rightarrow> error + conversation_doc" where
  "resetUnread c userId =
     save (case find (\<lambda>u. fst u = userId) (unreadCount c) of
             Some unread \<Rightarrow>
               c\<lparr>unreadCount := update_first (\<lambda>u. fst u = userId) (\<lambda>u. (fst u, 0)) (unreadCount c)\<rparr>
           | None \<Rightarrow> c)"

definition getUnreadCount :: "conversation_doc \<Rightarrow> objectId \<Rightarrow> int" where
  "getUnreadCount c userId =
     (case find (\<lambda>u. fst u = userId) (unreadCount c) of
        Some unread \<Rightarrow> snd unread
      | None \<Rightarrow> 0)"

definition isArchivedForUser :: "conversation_doc \<Rightarrow> objectId \<Rightarrow> bool" where
  "isArchivedForUser c userId =
     (case find (\<lambda>a. fst a = userId) (isArchived c) of
        Some archived \<Rightarrow> snd archived
      | None \<Rightarrow> False)"

definition isPinnedForUser :: "conversation_doc \<Rightarrow> objectId \<Rightarrow> bool" where
  "isPinnedForUser c userId =
     (case find (\<lambda>p. fst p = userId) (isPinned c) of
        Some pinned \<Rightarrow> snd pinned
      | None \<Rightarrow> False)"

text \<open>
  The three reads once more, on the entry lists as the schema admits them and as
  JavaScript calls them: \<open>user\<close> is not a required field of an entry, and the argument of
  a call may be missing. The test \<^verbatim>\<open>u.user.toString() === userId.toString()\<close> of
  \<^verbatim>\<open>find\<close> throws a TypeError at the first entry without a user, and at the first entry
  at all when \<open>userId\<close> is missing; on an empty list it is never evaluated. An entry is a
  pair of an optional user and the value; the reads take the list that the method reads
  from \<^verbatim>\<open>this\<close>.
\<close>

fun find_user ::
  "(objectId option \<times> 'v) list \<Rightarrow> objectId option \<Rightarrow> error + (objectId option \<times> 'v) option" where
  "find_user [] userId = Inr None"
| "find_user (u # us) userId =
     (case fst u of
        None \<Rightarrow> Inl TypeError
      | Some i \<Rightarrow>
          (case userId of
             None \<Rightarrow> Inl TypeError
           | Some j \<Rightarrow> if i = j then Inr (Some u) else find_user us userId))"

definition getUnreadCount_js :: "(objectId option \<times> int) list \<Rightarrow> objectId option \<Rightarrow> error + int" where
  "getUnreadCount_js unreadCount_list userId =
     (case find_user unreadCount_list userId of
        Inl e \<Rightarrow> Inl e
      | Inr (Some unread) \<Rightarrow> Inr (snd unread)
      | Inr None \<Rightarrow> Inr 0)"

definition isArchivedForUser_js ::
  "(objectId option \<times> bool) list \<Rightarrow> objectId option \<Rightarrow> error + bool" where
  "isArchivedForUser_js isArchived_list userId =
     (case find_user isArchived_list userId of
        Inl e \<Rightarrow> Inl e
      | Inr (Some archived) \<Rightarrow> Inr (snd archived)
      | Inr None \<Rightarrow> Inr False)"

definition isPinnedForUser_js ::
  "(objectId option \<times> bool) list \<Rightarrow> objectId option \<Rightarrow> error + bool" where
  "isPinnedForUser_js isPinned_list userId =
     (case find_user isPinned_list userId of
        Inl e \<Rightarrow> Inl e
      | Inr (Some pinned) \<Rightarrow> Inr (snd pinned)
      | Inr None \<Rightarrow> Inr False)"

text \<open>
  The entry lists of a \<open>conversation_doc\<close>, where every entry carries its user, as lists
  of the schema.
\<close>

definition entries_of :: "(objectId \<times> 'v) list \<Rightarrow> (objectId option \<times> 'v) list" where
  "entries_of es = map (\<lambda>e. (Some (fst e), snd e)) es"

definition carry_users :: "(objectId option \<times> 'v) list \<Rightarrow> bool" where
  "carry_users es = list_all (\<lambda>e. fst e \<noteq> None) es"

section \<open>Message\<close>

datatype messageType = TextMsg | ImageMsg | FileMsg | SystemMsg

record attachment =
  fileUrl :: string
  fileName :: string
  fileSize :: int
  mimeType :: string

text \<open>
  A read entry \<^verbatim>\<open>{user, readAt}\<close> is a pair. \<open>content\<close> is optional in the schema
  (required for text messages only). \<open>createdAt\<close> is the creation timestamp that
  \<^verbatim>\<open>timestamps: true\<close> adds.
\<close>

record message_doc =
  m_id :: objectId
  sender :: objectId
  conversation :: objectId
  content :: "string option"
  messageType :: messageType
  attachments :: "attachment list"
  readBy :: "(objectId \<times> date) list"
  isEdited :: bool
  editedAt :: "date option"
  isDeleted :: bool
  deletedAt :: "date option"
  replyTo :: "objectId option"
  createdAt :: date

text \<open>
  \<^verbatim>\<open>trim: true\<close> on \<open>content\<close>: every assignment to the field goes through
  \<^verbatim>\<open>String.prototype.trim\<close>. The white space of JavaScript that an 8-bit character can
  hold is TAB, LF, VT, FF, CR, SPACE and NBSP.
\<close>

definition is_js_space :: "char \<Rightarrow> bool" where
  "is_js_space ch = (of_char ch \<in> {9, 10, 11, 12, 13, 32, 160 :: nat})"

definition js_trim :: "string \<Rightarrow> string" where
  "js_trim s = rev (dropWhile is_js_space (rev (dropWhile is_js_space s)))"

text \<open>
  The validators of \<open>content\<close>: \<^verbatim>\<open>required\<close> when the type is text (a string is
  present when it is not empty) and \<^verbatim>\<open>maxlength: 5000\<close>. The other required fields
  (sender, conversation) are always there in \<open>message_doc\<close>.
\<close>

definition validate_message :: "message_doc \<Rightarrow> bool" where
  "validate_message m =
     ((if messageType m = TextMsg then content m \<noteq> None \<and> content m \<noteq> Some [] else True)
      \<and> (case content m of None \<Rightarrow> True | Some s \<Rightarrow> length s \<le> 5000))"

text \<open>
  The Message schema has no save hook. A method that ends in \<^verbatim>\<open>return this.save()\<close>
  is modelled by the document it hands to \<^verbatim>\<open>save()\<close>; writing that document to the
  collection is \<open>update_message\<close> below.
\<close>

definition isReadBy :: "message_doc \<Rightarrow> objectId \<Rightarrow> bool" where
  "isReadBy m userId = list_ex (\<lambda>read. fst read = userId) (readBy m)"

definition markAsRead :: "message_doc \<Rightarrow> objectId \<Rightarrow> date \<Rightarrow> message_doc" where
  "markAsRead m userId now =
     (let alreadyRead = list_ex (\<lambda>read. fst read = userId) (readBy m)
      in if \<not> alreadyRead then m\<lparr>readBy := readBy m @ [(userId, now)]\<rparr> else m)"

definition tombstone :: string where
  "tombstone = ''This message was deleted''"

definition softDelete :: "message_doc \<Rightarrow> date \<Rightarrow> message_doc" where
  "softDelete m now =
     m\<lparr>isDeleted := True, deletedAt := Some now, content := Some (js_trim tombstone)\<rparr>"

section \<open>Room\<close>

datatype role = Owner | Admin | Member

datatype category = Academic | Social | Housing | Sports | Clubs | General

text \<open>
  The \<open>user\<close> of a member is a reference to a User. As stored, and as
  \<^verbatim>\<open>Room.findById(roomId)\<close> returns it, it is the ObjectId. A query with
  \<^verbatim>\<open>populate("members.user", ...)\<close> (\<^verbatim>\<open>findByInviteCode\<close>, \<^verbatim>\<open>findUserRooms\<close>, the
  handler of \<^verbatim>\<open>room:join\<close>) puts the User document with the selected fields in its
  place.
\<close>

record user_profile =
  u_id :: objectId
  u_name :: string
  u_netId :: string

datatype user_ref = Unpopulated objectId | Populated user_profile

text \<open>
  \<^verbatim>\<open>toString()\<close> of an ObjectId is its hex string; of a populated document it is the
  text that \<^verbatim>\<open>inspect\<close> prints for the document, an object literal (its quotation marks
  and line breaks are left out here).
\<close>

definition inspect :: "user_profile \<Rightarrow> string" where
  "inspect p = ''{ _id: new ObjectId('' @ u_id p @ ''), name: '' @ u_name p
                 @ '', netId: '' @ u_netId p @ '' }''"

fun ref_toString :: "user_ref \<Rightarrow> string" where
  "ref_toString (Unpopulated i) = i"
| "ref_toString (Populated p) = inspect p"


record room_member =
  user :: user_ref
  role :: role
  joinedAt :: date

text \<open>
  \<open>maxMembers\<close> is a \<^verbatim>\<open>Number\<close> with \<^verbatim>\<open>min: 2\<close>, \<^verbatim>\<open>max: 1000\<close> and default 100;
  the schema does not ask for a whole number.
\<close>

record room_doc =
  r_id :: objectId
  name :: string
  createdBy :: objectId
  isPrivate :: bool
  description :: "string option"
  inviteCode :: "string option"
  members :: "room_member list"
  maxMembers :: real
  category :: category
  isActive :: bool
  lastActivity :: date

definition chars :: string where
  "chars = ''ABCDEFGHIJKLMNOPQRSTUVWXYZ0123456789''"

text \<open>\<^verbatim>\<open>s.charAt(i)\<close> is the empty string when \<open>i\<close> is out of range.\<close>

definition charAt :: "string \<Rightarrow> int \<Rightarrow> string" where
  "charAt s i = (if 0 \<le> i \<and> i < int (length s) then [s ! nat i] else [])"

text \<open>
  The loop of \<^verbatim>\<open>generateInviteCode\<close>. \<open>rnd i\<close> is what \<^verbatim>\<open>Math.random()\<close> returns
  in round \<open>i\<close>, a number from 0 up to but not including 1, taken as a real; the index
  is \<^verbatim>\<open>Math.floor\<close> of the exact product with the length of the alphabet.
\<close>

function generateInviteCode_loop :: "(nat \<Rightarrow> real) \<Rightarrow> nat \<Rightarrow> string \<Rightarrow> string" where
  "generateInviteCode_loop rnd i code =
     (if i < 8
      then generateInviteCode_loop rnd (i + 1)
             (code @ charAt chars \<lfloor>rnd i * real (length chars)\<rfloor>)
      else code)"
  by pat_completeness auto
termination
  by (relation "measure (\<lambda>(rnd, i, code). 8 - i)") auto

declare generateInviteCode_loop.simps [simp del]

text \<open>
  The Room schema has no save hook either: a method returns the document it hands to
  \<^verbatim>\<open>save()\<close>, or the error it throws before.
\<close>

definition generateInviteCode :: "room_doc \<Rightarrow> (nat \<Rightarrow> real) \<Rightarrow> room_doc" where
  "generateInviteCode r rnd = r\<lparr>inviteCode := Some (generateInviteCode_loop rnd 0 [])\<rparr>"

text \<open>
  The membership test of every method is \<^verbatim>\<open>m.user.toString() === userId.toString()\<close>.
  The member \<^verbatim>\<open>addMember\<close> pushes holds the id it was called with.
\<close>

definition isMember :: "room_doc \<Rightarrow> objectId \<Rightarrow> bool" where
  "isMember r userId = list_ex (\<lambda>m. ref_toString (user m) = userId) (members r)"


definition removeMember :: "room_doc \<Rightarrow> objectId \<Rightarrow> error + room_doc" where
  "removeMember r userId =
     Inr (r\<lparr>members := filter (\<lambda>m. ref_toString (user m) \<noteq> userId) (members r)\<rparr>)"

definition updateMemberRole :: "room_doc \<Rightarrow> objectId \<Rightarrow> role \<Rightarrow> error + room_doc" where
  "updateMemberRole r userId newRole =
     (case find (\<lambda>m. ref_toString (user m) = userId) (members r) of
        None \<Rightarrow> Inl NotAMember
      | Some member \<Rightarrow>
          Inr (r\<lparr>members := update_first (\<lambda>m. ref_toString (user m) = userId)
                                (\<lambda>m. m\<lparr>role := newRole\<rparr>) (members r)\<rparr>))"






section \<open>The store and the gateway\<close>

text \<open>
  The collections of conversations and of messages, in insertion order, and the events
  the gateway has pushed: \<open>(channel, event, message)\<close> for
  \<^verbatim>\<open>io.to(channel).emit(event, {message})\<close>. \<^verbatim>\<open>populate\<close> of a sender or of
  participants only decorates what a query returns with user profiles; the model leaves
  it out.
\<close>

record store =
  conversations :: "conversation_doc list"
  messages :: "message_doc list"
  emitted :: "(string \<times> string \<times> message_doc) list"

text \<open>A document read from a collection is not new.\<close>

definition hydrate :: "conversation_doc \<Rightarrow> conversation_doc" where
  "hydrate c = c\<lparr>isNew := False\<rparr>"

definition Conversation_findById :: "store \<Rightarrow> objectId \<Rightarrow> conversation_doc option" where
  "Conversation_findById s i = map_option hydrate (find (\<lambda>c. c_id c = i) (conversations s))"

text \<open>
  \<^verbatim>\<open>findOne({participants: {$all: ps, $size: 2}})\<close>: the first document whose participant
  array holds every element of \<open>ps\<close> and has length 2.
\<close>

definition matches_all_size2 :: "objectId list \<Rightarrow> conversation_doc \<Rightarrow> bool" where
  "matches_all_size2 ps c =
     (list_all (\<lambda>p. p \<in> set (participants c)) ps \<and> length (participants c) = 2)"

definition Conversation_findOne :: "store \<Rightarrow> objectId list \<Rightarrow> conversation_doc option" where
  "Conversation_findOne s ps = map_option hydrate (find (matches_all_size2 ps) (conversations s))"

text \<open>
  The write of a successful \<^verbatim>\<open>save()\<close>: a new document is inserted, a document
  that was read from the collection replaces the stored one of the same id.
\<close>

definition insert_conversation :: "store \<Rightarrow> conversation_doc \<Rightarrow> store" where
  "insert_conversation s c = s\<lparr>conversations := conversations s @ [c]\<rparr>"

definition update_conversation :: "store \<Rightarrow> conversation_doc \<Rightarrow> store" where
  "update_conversation s c =
     s\<lparr>conversations := map (\<lambda>x. if c_id x = c_id c then c else x) (conversations s)\<rparr>"

text \<open>
  \<^verbatim>\<open>Conversation.create({participants})\<close>: a new document with the schema's defaults,
  saved. \<open>newId\<close> is the ObjectId the driver generates, \<open>now\<close> the clock.
\<close>

definition Conversation_create ::
  "store \<Rightarrow> objectId list \<Rightarrow> objectId \<Rightarrow> date \<Rightarrow> (error + conversation_doc) \<times> store" where
  "Conversation_create s ps newId now =
     (case save \<lparr>c_id = newId, participants = ps, lastMessage = None, lastMessageAt = now,
                  unreadCount = [], isArchived = [], isPinned = [], typingUsers = [],
                  isNew = True\<rparr> of
        Inl e \<Rightarrow> (Inl e, s)
      | Inr c \<Rightarrow> (Inr c, insert_conversation s c))"

text \<open>
  \<^verbatim>\<open>[user1Id, user2Id].sort()\<close> orders the two strings by their code units; \<open>sort\<close> is
  taken on the lexicographic order of strings.
\<close>

definition findOrCreate ::
  "store \<Rightarrow> objectId \<Rightarrow> objectId \<Rightarrow> objectId \<Rightarrow> date \<Rightarrow> (error + conversation_doc) \<times> store" where
  "findOrCreate s user1Id user2Id newId now =
     (let ps = sort [user1Id, user2Id]
      in case Conversation_findOne s ps of
           Some conv \<Rightarrow> (Inr conv, s)
         | None \<Rightarrow> Conversation_create s ps newId now)"

definition Message_findById :: "store \<Rightarrow> objectId \<Rightarrow> message_doc option" where
  "Message_findById s i = find (\<lambda>m. m_id m = i) (messages s)"

definition insert_message :: "store \<Rightarrow> message_doc \<Rightarrow> store" where
  "insert_message s m = s\<lparr>messages := messages s @ [m]\<rparr>"

definition update_message :: "store \<Rightarrow> message_doc \<Rightarrow> store" where
  "update_message s m =
     s\<lparr>messages := map (\<lambda>x. if m_id x = m_id m then m else x) (messages s)\<rparr>"

text \<open>
  \<^verbatim>\<open>Message.create({sender, conversation, content, messageType})\<close>: the setter trims the
  content, the validators run, and the document is inserted. The content a client sends
  may be missing.
\<close>

definition Message_create ::
  "store \<Rightarrow> objectId \<Rightarrow> objectId \<Rightarrow> string option \<Rightarrow> messageType \<Rightarrow> objectId \<Rightarrow> date
     \<Rightarrow> (error + message_doc) \<times> store" where
  "Message_create s senderId conversationId body mtype newId now =
     (let m = \<lparr>m_id = newId, sender = senderId, conversation = conversationId,
               content = map_option js_trim body, messageType = mtype, attachments = [],
               readBy = [], isEdited = False, editedAt = None, isDeleted = False,
               deletedAt = None, replyTo = None, createdAt = now\<rparr>
      in if validate_message m then (Inr m, insert_message s m)
         else (Inl ValidationFailure, s))"

text \<open>
  \<^verbatim>\<open>populate("replyTo", "content sender")\<close>: the message a reply refers to, looked up by
  id with no filter, reduced to its content and sender.
\<close>

definition populate_replyTo :: "store \<Rightarrow> message_doc \<Rightarrow> (string option \<times> objectId) option" where
  "populate_replyTo s m =
     (case replyTo m of
        None \<Rightarrow> None
      | Some i \<Rightarrow> map_option (\<lambda>t. (content t, sender t)) (Message_findById s i))"

text \<open>
  \<^verbatim>\<open>getRecentMessages\<close>: the messages of the conversation that are not deleted, newest
  first, at most \<open>limit\<close> of them (a limit of 0 is no limit in MongoDB), each with its
  reply target resolved.
\<close>

definition getRecentMessages ::
  "store \<Rightarrow> objectId \<Rightarrow> nat \<Rightarrow> (message_doc \<times> (string option \<times> objectId) option) list" where
  "getRecentMessages s conversationId limit =
     (let found = filter (\<lambda>m. conversation m = conversationId \<and> isDeleted m = False) (messages s);
          sorted_desc = sort_key (\<lambda>m. - createdAt m) found;
          limited = (if limit = 0 then sorted_desc else take limit sorted_desc)
      in map (\<lambda>m. (m, populate_replyTo s m)) limited)"

datatype reply = ReplyError string | ReplySuccess message_doc

text \<open>
  The handler of \<^verbatim>\<open>message:send:conversation\<close> for the connection of \<open>userId\<close>. A
  conversation that is not found is \<^verbatim>\<open>null\<close>, and reading its participants throws
  into the \<^verbatim>\<open>catch\<close>. \<^verbatim>\<open>participants.includes(userId)\<close> is the \<^verbatim>\<open>includes\<close> of a
  Mongoose array, which compares an ObjectId and a string by the string form. \<open>newId\<close>
  is the id of the message, \<open>createdNow\<close> and \<open>updatedNow\<close> the two readings of the
  clock. Every error caught is answered with its message, and the connection goes on.
\<close>

definition send_conversation ::
  "store \<Rightarrow> objectId \<Rightarrow> objectId \<Rightarrow> string option \<Rightarrow> objectId \<Rightarrow> date \<Rightarrow> date \<Rightarrow> reply \<times> store" where
  "send_conversation s userId conversationId body newId createdNow updatedNow =
     (case Conversation_findById s conversationId of
        None \<Rightarrow> (ReplyError (error_message NullConversation), s)
      | Some conv \<Rightarrow>
          if userId \<notin> set (participants conv)
          then (ReplyError ''Not authorized'', s)
          else
            (case Message_create s userId conversationId body TextMsg newId createdNow of
               (Inl e, s1) \<Rightarrow> (ReplyError (error_message e), s1)
             | (Inr message, s1) \<Rightarrow>
                 (case updateLastMessage conv (m_id message) updatedNow of
                    Inl e \<Rightarrow> (ReplyError (error_message e), s1)
                  | Inr conv' \<Rightarrow>
                      (let s2 = update_conversation s1 conv';
                           s3 = s2\<lparr>emitted := emitted s2 @
                                  [(''conversation:'' @ conversationId, ''message:new'', message)]\<rparr>
                       in (ReplySuccess message, s3)))))"

text \<open>
  What a participant's unread count is in the store: \<^verbatim>\<open>getUnreadCount\<close> on the
  conversation as read back.
\<close>

definition stored_unread :: "store \<Rightarrow> objectId \<Rightarrow> objectId \<Rightarrow> int option" where
  "stored_unread s conversationId userId =
     map_option (\<lambda>c. getUnreadCount c userId) (Conversation_findById s conversationId)"

section \<open>Example states\<close>

text \<open>
  The conversation of the users \<open>1\<close> and \<open>2\<close> as \<^verbatim>\<open>conversation:start\<close> leaves it in the
  store, and a store that holds only this conversation.
\<close>

definition conv12 :: conversation_doc where
  "conv12 = \<lparr>c_id = ''c1'', participants = [''1'', ''2''], lastMessage = None, lastMessageAt = 0,
     unreadCount = [(''1'', 0), (''2'', 0)], isArchived = [(''1'', False), (''2'', False)],
     isPinned = [(''1'', False), (''2'', False)], typingUsers = [], isNew = False\<rparr>"

definition store0 :: store where
  "store0 = \<lparr>conversations = [], messages = [], emitted = []\<rparr>"

definition store12 :: store where
  "store12 = \<lparr>conversations = [conv12], messages = [], emitted = []\<rparr>"

text \<open>
  An older conversation, of the users \<open>7\<close> and \<open>8\<close>; the store that holds only it, and
  the store that holds it and then the conversation of \<open>1\<close> and \<open>2\<close>.
\<close>

definition conv78 :: conversation_doc where
  "conv78 = \<lparr>c_id = ''c0'', participants = [''7'', ''8''], lastMessage = None, lastMessageAt = 0,
     unreadCount = [(''7'', 0), (''8'', 0)], isArchived = [(''7'', False), (''8'', False)],
     isPinned = [(''7'', False), (''8'', False)], typingUsers = [], isNew = False\<rparr>"

definition store78 :: store where
  "store78 = \<lparr>conversations = [conv78], messages = [], emitted = []\<rparr>"

definition store78_12 :: store where
  "store78_12 = \<lparr>conversations = [conv78, conv12], messages = [], emitted = []\<rparr>"

text \<open>
  The message \<open>hi\<close> of user \<open>1\<close>, a reply of user \<open>2\<close> to it, a store with both, and the
  store \<open>store12\<close> after user \<open>1\<close> has sent \<open>hi\<close>.
\<close>

definition msg1 :: message_doc where
  "msg1 = \<lparr>m_id = ''m1'', sender = ''1'', conversation = ''c1'', content = Some ''hi'',
     messageType = TextMsg, attachments = [], readBy = [], isEdited = False, editedAt = None,
     isDeleted = False, deletedAt = None, replyTo = None, createdAt = 10\<rparr>"

definition msg2 :: message_doc where
  "msg2 = msg1\<lparr>m_id := ''m2'', sender := ''2'', content := Some ''hello'',
                replyTo := Some ''m1'', createdAt := 20\<rparr>"

definition store_msgs :: store where
  "store_msgs = \<lparr>conversations = [], messages = [msg1, msg2], emitted = []\<rparr>"

definition store12_sent :: store where
  "store12_sent =
     \<lparr>conversations = [conv12\<lparr>lastMessage := Some ''m1'', lastMessageAt := 11\<rparr>],
      messages = [msg1], emitted = [(''conversation:c1'', ''message:new'', msg1)]\<rparr>"

text \<open>A private room of capacity 2 with its owner as the only member.\<close>

definition room1 :: room_doc where
  "room1 = \<lparr>r_id = ''r1'', name = ''study'', createdBy = ''1'', isPrivate = True,
     description = None, inviteCode = None,
     members = [\<lparr>user = Unpopulated ''1'', role = Owner, joinedAt = 0\<rparr>], maxMembers = 2,
     category = General, isActive = True, lastActivity = 0\<rparr>"




text \<open>
  Eight results of \<^verbatim>\<open>Math.random()\<close>, each in the middle of the interval of one index:
  14 (letter O), 26 (digit 0), 8 (letter I), 27 (digit 1), and again.
\<close>

definition draws_O0I1 :: "nat \<Rightarrow> real" where
  "draws_O0I1 i = (if i = 0 \<or> i = 4 then 29 / 72 else if i = 1 \<or> i = 5 then 53 / 72
                   else if i = 2 \<or> i = 6 then 17 / 72 else 55 / 72)"

text \<open>
  The specification's side of C9, in its own words: an alphabet is unambiguous when no
  two of its characters are look-alikes. The letter O and the digit 0, and the letter I
  and the digit 1, are the look-alikes that such alphabets leave out.
\<close>

definition spec_lookalike :: "char \<Rightarrow> char \<Rightarrow> bool" where
  "spec_lookalike a b = ((a = CHR ''O'' \<and> b = CHR ''0'') \<or> (a = CHR ''I'' \<and> b = CHR ''1''))"

definition spec_unambiguous :: "string \<Rightarrow> bool" where
  "spec_unambiguous alphabet =
     (\<not> list_ex (\<lambda>a. list_ex (\<lambda>b. spec_lookalike a b) alphabet) alphabet)"

section \<open>Lookups in entry lists\<close>

lemma find_update_first:
  "find p xs = Some y \<Longrightarrow> p (f y) \<Longrightarrow> find p (update_first p f xs) = Some (f y)"
  by (induction xs) (auto split: if_splits)

lemma find_zero_map:
  "find (\<lambda>u. fst u = userId) (map (\<lambda>p. (p, 0::int)) ps) = Some (a, b) \<Longrightarrow> b = 0"
  by (induction ps) (auto split: if_splits)

lemma find_no_entry: "k \<notin> fst ` set xs \<Longrightarrow> find (\<lambda>u. fst u = k) xs = None"
  by (induction xs) auto

section \<open>Saving a conversation\<close>

lemma save_two:
  "length (participants c) = 2 \<Longrightarrow>
   save c = Inr ((if isNew c
                then c\<lparr>unreadCount := map (\<lambda>userId. (userId, 0)) (participants c),
                       isArchived := map (\<lambda>userId. (userId, False)) (participants c),
                       isPinned := map (\<lambda>userId. (userId, False)) (participants c)\<rparr>
                else c)\<lparr>isNew := False\<rparr>)"
  by (simp add: save_def pre_save_def)

lemma save_not_two: "length (participants c) \<noteq> 2 \<Longrightarrow> save c = Inl ParticipantCount"
  by (simp add: save_def pre_save_def)

lemma save_Inr_participants: "save c = Inr c' \<Longrightarrow> length (participants c) = 2"
  using save_not_two [of c] by (cases "length (participants c) = 2") auto

text \<open>
  C6. A save of a conversation whose participant count is not 2 fails, a save with two
  participants succeeds, and a saved conversation has exactly two participants. The save
  of a new document sets the unread, archived and pinned entries together, one of each
  per participant (count 0, not archived, not pinned); \<^verbatim>\<open>Conversation.create\<close> therefore
  stores a conversation with these entries for both participants.
\<close>

theorem conversation_save_two_participants:
  "(length (participants c) \<noteq> 2 \<longrightarrow> save c = Inl ParticipantCount)
   \<and> (length (participants c) = 2 \<longrightarrow> (\<exists>c'. save c = Inr c'))
   \<and> (\<forall>c'. save c = Inr c' \<longrightarrow>
         participants c' = participants c \<and> length (participants c') = 2
         \<and> (isNew c \<longrightarrow>
               unreadCount c' = map (\<lambda>u. (u, 0)) (participants c)
             \<and> isArchived c' = map (\<lambda>u. (u, False)) (participants c)
             \<and> isPinned c' = map (\<lambda>u. (u, False)) (participants c)))
   \<and> (\<forall>c' s'. Conversation_create s ps newId now = (Inr c', s') \<longrightarrow>
         (\<exists>a b. ps = [a, b] \<and> participants c' = [a, b]
            \<and> unreadCount c' = [(a, 0), (b, 0)]
            \<and> isArchived c' = [(a, False), (b, False)]
            \<and> isPinned c' = [(a, False), (b, False)]
            \<and> conversations s' = conversations s @ [c']))"
proof (intro conjI allI impI)
  show "length (participants c) \<noteq> 2 \<Longrightarrow> save c = Inl ParticipantCount"
    by (rule save_not_two)
  show "length (participants c) = 2 \<Longrightarrow> \<exists>c'. save c = Inr c'"
    by (simp add: save_two)
next
  fix c' assume s: "save c = Inr c'"
  then have two: "length (participants c) = 2" by (rule save_Inr_participants)
  with s show "participants c' = participants c" by (auto simp: save_two split: if_splits)
  with two show "length (participants c') = 2" by simp
  { assume "isNew c"
    with s two show "unreadCount c' = map (\<lambda>u. (u, 0)) (participants c)"
      by (auto simp: save_two)
    from \<open>isNew c\<close> s two show "isArchived c' = map (\<lambda>u. (u, False)) (participants c)"
      by (auto simp: save_two)
    from \<open>isNew c\<close> s two show "isPinned c' = map (\<lambda>u. (u, False)) (participants c)"
      by (auto simp: save_two) }
next
  fix c' s' assume cr: "Conversation_create s ps newId now = (Inr c', s')"
  let ?d = "\<lparr>c_id = newId, participants = ps, lastMessage = None, lastMessageAt = now,
             unreadCount = [], isArchived = [], isPinned = [], typingUsers = [],
             isNew = True\<rparr>"
  from cr have sv: "save ?d = Inr c'" and st: "s' = insert_conversation s c'"
    by (auto simp: Conversation_create_def split: sum.splits)
  from sv have "length ps = 2" using save_Inr_participants [of ?d c'] by simp
  then obtain a b where ps: "ps = [a, b]"
    by (cases ps; cases "tl ps"; auto)
  with sv st show "\<exists>a b. ps = [a, b] \<and> participants c' = [a, b]
            \<and> unreadCount c' = [(a, 0), (b, 0)]
            \<and> isArchived c' = [(a, False), (b, False)]
            \<and> isPinned c' = [(a, False), (b, False)]
            \<and> conversations s' = conversations s @ [c']"
    by (auto simp: save_two insert_conversation_def)
qed

theorem conversation_save_two_participants_witness:
  "save (conv12\<lparr>participants := [''1'']\<rparr>) = Inl ParticipantCount
   \<and> save (conv12\<lparr>unreadCount := [], isArchived := [], isPinned := [], isNew := True\<rparr>) = Inr conv12
   \<and> Conversation_create store0 [''1'', ''2''] ''c1'' 0 = (Inr conv12, store12)
   \<and> length (participants conv12) = 2
   \<and> unreadCount conv12 = [(''1'', 0), (''2'', 0)]"
proof -
  have a: "save (conv12\<lparr>unreadCount := [], isArchived := [], isPinned := [], isNew := True\<rparr>)
             = Inr conv12"
    by (simp add: save_def pre_save_def conv12_def)
  have b: "Conversation_create store0 [''1'', ''2''] ''c1'' 0 = (Inr conv12, store12)"
    by (simp add: Conversation_create_def save_def pre_save_def conv12_def store0_def
          store12_def insert_conversation_def)
  have c: "length (participants (conv12\<lparr>participants := [''1'']\<rparr>)) \<noteq> 2"
    by simp
  from conversation_save_two_participants
         [of "conv12\<lparr>unreadCount := [], isArchived := [], isPinned := [], isNew := True\<rparr>"
             store0 "[''1'', ''2'']" "''c1''" 0] a b
  have d: "length (participants conv12) = 2 \<and> unreadCount conv12 = [(''1'', 0), (''2'', 0)]"
    by auto
  from conversation_save_two_participants [of "conv12\<lparr>participants := [''1'']\<rparr>"] c
  have "save (conv12\<lparr>participants := [''1'']\<rparr>) = Inl ParticipantCount"
    by blast
  with a b d show ?thesis by simp
qed

section \<open>Unread counts\<close>

lemma getUnreadCount_after_reset:
  assumes "resetUnread c1 userId = Inr c2"
  shows "getUnreadCount c2 userId = 0"
proof -
  have two: "length (participants c1) = 2"
  proof (rule ccontr)
    assume "length (participants c1) \<noteq> 2"
    then have "resetUnread c1 userId = Inl ParticipantCount"
      by (auto simp: resetUnread_def save_def pre_save_def split: option.splits)
    with assms show False by simp
  qed
  show ?thesis
  proof (cases "find (\<lambda>u. fst u = userId) (unreadCount c1)")
    case None
    with assms two show ?thesis
      by (auto simp: resetUnread_def save_two getUnreadCount_def dest: find_zero_map
               split: option.splits if_splits)
  next
    case (Some e)
    then have "find (\<lambda>u. fst u = userId)
                 (update_first (\<lambda>u. fst u = userId) (\<lambda>u. (fst u, 0)) (unreadCount c1))
               = Some (fst e, 0)"
      by (intro find_update_first) (auto dest: find_Some_iff [THEN iffD1])
    with Some assms two show ?thesis
      by (auto simp: resetUnread_def save_two getUnreadCount_def dest: find_zero_map
               split: option.splits if_splits)
  qed
qed

lemma incrementUnread_succeeds:
  "length (participants c) = 2 \<Longrightarrow>
   \<exists>c1. incrementUnread c userId = Inr c1 \<and> length (participants c1) = 2"
  by (auto simp: incrementUnread_def save_two split: option.splits)

lemma resetUnread_succeeds:
  "length (participants c) = 2 \<Longrightarrow> \<exists>c1. resetUnread c userId = Inr c1"
  by (auto simp: resetUnread_def save_two split: option.splits)

lemma find_append_none: "find p xs = None \<Longrightarrow> find p (xs @ ys) = find p ys"
  by (induction xs) (auto split: if_splits)

text \<open>
  \<^verbatim>\<open>incrementUnread\<close> by itself does what its name says: on a stored conversation it
  raises the count of the user by 1, starting an entry at 1 for a user without one.
\<close>

lemma incrementUnread_adds_one:
  assumes "isNew c = False" and "length (participants c) = 2"
  shows "\<exists>c1. incrementUnread c userId = Inr c1
           \<and> getUnreadCount c1 userId = getUnreadCount c userId + 1"
proof (cases "find (\<lambda>u. fst u = userId) (unreadCount c)")
  case None
  then have "find (\<lambda>u. fst u = userId) (unreadCount c @ [(userId, 1)]) = Some (userId, 1)"
    by (simp add: find_append_none)
  with None assms show ?thesis
    by (simp add: incrementUnread_def save_two getUnreadCount_def)
next
  case (Some e)
  then have "find (\<lambda>u. fst u = userId)
               (update_first (\<lambda>u. fst u = userId) (\<lambda>u. (fst u, snd u + 1)) (unreadCount c))
             = Some (fst e, snd e + 1)"
    by (intro find_update_first) (auto dest: find_Some_iff [THEN iffD1])
  with Some assms show ?thesis
    by (simp add: incrementUnread_def save_two getUnreadCount_def)
qed

text \<open>
  C8. For every conversation \<open>c\<close> and user \<open>u\<close>: when \<^verbatim>\<open>incrementUnread(u)\<close> and then
  \<^verbatim>\<open>resetUnread(u)\<close> have been saved, \<^verbatim>\<open>getUnreadCount(u)\<close> is 0; and on a conversation
  of two participants both saves do succeed.
\<close>

theorem increment_then_reset_unread:
  "(\<forall>c1 c2. incrementUnread c userId = Inr c1 \<and> resetUnread c1 userId = Inr c2
       \<longrightarrow> getUnreadCount c2 userId = 0)
   \<and> (length (participants c) = 2
       \<longrightarrow> (\<exists>c1 c2. incrementUnread c userId = Inr c1 \<and> resetUnread c1 userId = Inr c2
               \<and> getUnreadCount c2 userId = 0))"
proof (intro conjI allI impI)
  fix c1 c2
  assume "incrementUnread c userId = Inr c1 \<and> resetUnread c1 userId = Inr c2"
  then show "getUnreadCount c2 userId = 0"
    using getUnreadCount_after_reset by blast
next
  assume "length (participants c) = 2"
  then obtain c1 where c1: "incrementUnread c userId = Inr c1" "length (participants c1) = 2"
    using incrementUnread_succeeds by blast
  then obtain c2 where c2: "resetUnread c1 userId = Inr c2"
    using resetUnread_succeeds by blast
  with c1 show "\<exists>c1 c2. incrementUnread c userId = Inr c1 \<and> resetUnread c1 userId = Inr c2
               \<and> getUnreadCount c2 userId = 0"
    using getUnreadCount_after_reset by blast
qed

theorem increment_then_reset_unread_witness:
  "incrementUnread conv12 ''2'' = Inr (conv12\<lparr>unreadCount := [(''1'', 0), (''2'', 1)]\<rparr>)
   \<and> resetUnread (conv12\<lparr>unreadCount := [(''1'', 0), (''2'', 1)]\<rparr>) ''2'' = Inr conv12
   \<and> getUnreadCount (conv12\<lparr>unreadCount := [(''1'', 0), (''2'', 1)]\<rparr>) ''2'' = 1
   \<and> getUnreadCount conv12 ''2'' = 0"
proof -
  have a: "incrementUnread conv12 ''2'' = Inr (conv12\<lparr>unreadCount := [(''1'', 0), (''2'', 1)]\<rparr>)"
    by (simp add: incrementUnread_def save_def pre_save_def conv12_def)
  have b: "resetUnread (conv12\<lparr>unreadCount := [(''1'', 0), (''2'', 1)]\<rparr>) ''2'' = Inr conv12"
    by (simp add: resetUnread_def save_def pre_save_def conv12_def)
  have c: "getUnreadCount (conv12\<lparr>unreadCount := [(''1'', 0), (''2'', 1)]\<rparr>) ''2'' = 1"
    by (simp add: getUnreadCount_def conv12_def)
  from increment_then_reset_unread [of conv12 "''2''"] a b
  have "getUnreadCount conv12 ''2'' = 0" by blast
  with a b c show ?thesis by simp
qed

lemma find_user_carry:
  "carry_users es \<Longrightarrow>
   find_user es (Some userId) = Inr (find (\<lambda>e. fst e = Some userId) es)"
  by (induction es) (auto simp: carry_users_def)

lemma find_entries_of:
  "find (\<lambda>e. fst e = Some userId) (entries_of es)
     = map_option (\<lambda>e. (Some (fst e), snd e)) (find (\<lambda>e. fst e = userId) es)"
  by (induction es) (auto simp: entries_of_def)

lemma carry_entries_of: "carry_users (entries_of es)"
  by (induction es) (auto simp: entries_of_def carry_users_def)

lemma find_no_user: "Some k \<notin> fst ` set es \<Longrightarrow> find (\<lambda>e. fst e = Some k) es = None"
  by (induction es) auto

lemma reads_js_typed:
  "getUnreadCount_js (entries_of (unreadCount c)) (Some userId) = Inr (getUnreadCount c userId)"
  "isArchivedForUser_js (entries_of (isArchived c)) (Some userId)
     = Inr (isArchivedForUser c userId)"
  "isPinnedForUser_js (entries_of (isPinned c)) (Some userId) = Inr (isPinnedForUser c userId)"
  by (simp_all add: getUnreadCount_js_def isArchivedForUser_js_def isPinnedForUser_js_def
        getUnreadCount_def isArchivedForUser_def isPinnedForUser_def
        find_user_carry carry_entries_of find_entries_of split: option.splits)

text \<open>
  C10, as claimed, fails: the reads are not total. On an unread, archived or pinned list
  whose entry has no user, the read for user \<open>3\<close>, who has no entry, throws a TypeError;
  and so does \<^verbatim>\<open>getUnreadCount\<close> on the conversation of \<open>1\<close> and \<open>2\<close> when the user id
  is missing.
\<close>

theorem reads_TypeError_counterexample:
  "getUnreadCount_js [(None, 3)] (Some ''3'') = Inl TypeError
   \<and> isArchivedForUser_js [(None, True)] (Some ''3'') = Inl TypeError
   \<and> isPinnedForUser_js [(None, True)] (Some ''3'') = Inl TypeError
   \<and> getUnreadCount_js (entries_of (unreadCount conv12)) None = Inl TypeError"
  by (simp add: getUnreadCount_js_def isArchivedForUser_js_def isPinnedForUser_js_def
        entries_of_def conv12_def)

text \<open>
  C10, amended. On entry lists whose entries each carry their user, and for every user id
  that is present: the three reads return a value, never an error; for a user with no
  entry in the list (a user who is not a participant, for one) \<^verbatim>\<open>getUnreadCount\<close>
  returns 0 and \<^verbatim>\<open>isArchivedForUser\<close> and \<^verbatim>\<open>isPinnedForUser\<close> return false. The lists
  of a \<open>conversation_doc\<close> are such lists, and on them the reads are the functions
  \<open>getUnreadCount\<close>, \<open>isArchivedForUser\<close> and \<open>isPinnedForUser\<close>, with the same
  defaults; in a conversation as first saved, every user who is not a participant reads
  the defaults.
\<close>

theorem reads_default_without_entry:
  "(carry_users us \<longrightarrow>
      (\<exists>v. getUnreadCount_js us (Some userId) = Inr v)
      \<and> (Some userId \<notin> fst ` set us \<longrightarrow> getUnreadCount_js us (Some userId) = Inr 0))
   \<and> (carry_users as \<longrightarrow>
      (\<exists>v. isArchivedForUser_js as (Some userId) = Inr v)
      \<and> (Some userId \<notin> fst ` set as \<longrightarrow> isArchivedForUser_js as (Some userId) = Inr False))
   \<and> (carry_users ps \<longrightarrow>
      (\<exists>v. isPinnedForUser_js ps (Some userId) = Inr v)
      \<and> (Some userId \<notin> fst ` set ps \<longrightarrow> isPinnedForUser_js ps (Some userId) = Inr False))
   \<and> carry_users (entries_of (unreadCount c)) \<and> carry_users (entries_of (isArchived c))
   \<and> carry_users (entries_of (isPinned c))
   \<and> getUnreadCount_js (entries_of (unreadCount c)) (Some userId) = Inr (getUnreadCount c userId)
   \<and> isArchivedForUser_js (entries_of (isArchived c)) (Some userId)
       = Inr (isArchivedForUser c userId)
   \<and> isPinnedForUser_js (entries_of (isPinned c)) (Some userId) = Inr (isPinnedForUser c userId)
   \<and> (userId \<notin> fst ` set (unreadCount c) \<longrightarrow> getUnreadCount c userId = 0)
   \<and> (userId \<notin> fst ` set (isArchived c) \<longrightarrow> isArchivedForUser c userId = False)
   \<and> (userId \<notin> fst ` set (isPinned c) \<longrightarrow> isPinnedForUser c userId = False)
   \<and> (\<forall>c'. isNew c \<and> save c = Inr c' \<and> userId \<notin> set (participants c) \<longrightarrow>
          getUnreadCount c' userId = 0 \<and> isArchivedForUser c' userId = False
          \<and> isPinnedForUser c' userId = False)"
proof -
  have u: "carry_users us \<longrightarrow>
      (\<exists>v. getUnreadCount_js us (Some userId) = Inr v)
      \<and> (Some userId \<notin> fst ` set us \<longrightarrow> getUnreadCount_js us (Some userId) = Inr 0)"
    by (auto simp: getUnreadCount_js_def find_user_carry find_no_user split: option.splits)
  have a: "carry_users as \<longrightarrow>
      (\<exists>v. isArchivedForUser_js as (Some userId) = Inr v)
      \<and> (Some userId \<notin> fst ` set as \<longrightarrow> isArchivedForUser_js as (Some userId) = Inr False)"
    by (auto simp: isArchivedForUser_js_def find_user_carry find_no_user split: option.splits)
  have p: "carry_users ps \<longrightarrow>
      (\<exists>v. isPinnedForUser_js ps (Some userId) = Inr v)
      \<and> (Some userId \<notin> fst ` set ps \<longrightarrow> isPinnedForUser_js ps (Some userId) = Inr False)"
    by (auto simp: isPinnedForUser_js_def find_user_carry find_no_user split: option.splits)
  have t1: "userId \<notin> fst ` set (unreadCount c) \<longrightarrow> getUnreadCount c userId = 0"
    by (simp add: getUnreadCount_def find_no_entry)
  have t2: "userId \<notin> fst ` set (isArchived c) \<longrightarrow> isArchivedForUser c userId = False"
    by (simp add: isArchivedForUser_def find_no_entry)
  have t3: "userId \<notin> fst ` set (isPinned c) \<longrightarrow> isPinnedForUser c userId = False"
    by (simp add: isPinnedForUser_def find_no_entry)
  have n: "\<forall>c'. isNew c \<and> save c = Inr c' \<and> userId \<notin> set (participants c) \<longrightarrow>
          getUnreadCount c' userId = 0 \<and> isArchivedForUser c' userId = False
          \<and> isPinnedForUser c' userId = False"
  proof (intro allI impI)
    fix c' assume h: "isNew c \<and> save c = Inr c' \<and> userId \<notin> set (participants c)"
    then have "length (participants c) = 2" by (auto dest: save_Inr_participants)
    from save_two [OF this] h
    have c': "unreadCount c' = map (\<lambda>u. (u, 0)) (participants c)"
         "isArchived c' = map (\<lambda>u. (u, False)) (participants c)"
         "isPinned c' = map (\<lambda>u. (u, False)) (participants c)"
      by auto
    from h have "userId \<notin> fst ` set (unreadCount c')" "userId \<notin> fst ` set (isArchived c')"
        "userId \<notin> fst ` set (isPinned c')"
      by (auto simp: c')
    then show "getUnreadCount c' userId = 0 \<and> isArchivedForUser c' userId = False
          \<and> isPinnedForUser c' userId = False"
      by (simp add: getUnreadCount_def isArchivedForUser_def isPinnedForUser_def
            find_no_entry)
  qed
  from u a p t1 t2 t3 n reads_js_typed [of c userId]
    carry_entries_of [of "unreadCount c"] carry_entries_of [of "isArchived c"]
    carry_entries_of [of "isPinned c"]
  show ?thesis by blast
qed

theorem reads_default_without_entry_witness:
  "carry_users (entries_of (unreadCount conv12))
   \<and> Some ''3'' \<notin> fst ` set (entries_of (unreadCount conv12))
   \<and> getUnreadCount_js (entries_of (unreadCount conv12)) (Some ''3'') = Inr 0
   \<and> isArchivedForUser_js (entries_of (isArchived conv12)) (Some ''3'') = Inr False
   \<and> isPinnedForUser_js (entries_of (isPinned conv12)) (Some ''3'') = Inr False
   \<and> getUnreadCount_js (entries_of (unreadCount conv12)) (Some ''2'') = Inr 0
   \<and> getUnreadCount_js [(Some ''1'', 0), (Some ''2'', 4)] (Some ''2'') = Inr 4
   \<and> ''3'' \<notin> fst ` set (unreadCount conv12) \<and> getUnreadCount conv12 ''3'' = 0
   \<and> ''3'' \<notin> fst ` set (isArchived conv12) \<and> isArchivedForUser conv12 ''3'' = False
   \<and> ''3'' \<notin> fst ` set (isPinned conv12) \<and> isPinnedForUser conv12 ''3'' = False
   \<and> save (conv12\<lparr>unreadCount := [], isArchived := [], isPinned := [], isNew := True\<rparr>)
       = Inr conv12"
proof -
  have sv: "save (conv12\<lparr>unreadCount := [], isArchived := [], isPinned := [], isNew := True\<rparr>)
          = Inr conv12"
    by (simp add: save_def pre_save_def conv12_def)
  have no: "''3'' \<notin> fst ` set (unreadCount conv12)" "''3'' \<notin> fst ` set (isArchived conv12)"
      "''3'' \<notin> fst ` set (isPinned conv12)"
    by (simp_all add: conv12_def)
  have no': "Some ''3'' \<notin> fst ` set (entries_of (unreadCount conv12))"
      "Some ''3'' \<notin> fst ` set (entries_of (isArchived conv12))"
      "Some ''3'' \<notin> fst ` set (entries_of (isPinned conv12))"
    by (simp_all add: entries_of_def conv12_def)
  have two: "getUnreadCount conv12 ''2'' = 0"
    by (simp add: getUnreadCount_def conv12_def)
  note inst = reads_default_without_entry
       [of "entries_of (unreadCount conv12)" "''3''" "entries_of (isArchived conv12)"
           "entries_of (isPinned conv12)" conv12]
  from inst no no' have
      "carry_users (entries_of (unreadCount conv12))"
      "getUnreadCount_js (entries_of (unreadCount conv12)) (Some ''3'') = Inr 0"
      "isArchivedForUser_js (entries_of (isArchived conv12)) (Some ''3'') = Inr False"
      "isPinnedForUser_js (entries_of (isPinned conv12)) (Some ''3'') = Inr False"
      "getUnreadCount conv12 ''3'' = 0" "isArchivedForUser conv12 ''3'' = False"
      "isPinnedForUser conv12 ''3'' = False"
    by blast+
  moreover from reads_default_without_entry [of _ "''2''" _ _ conv12] two
  have "getUnreadCount_js (entries_of (unreadCount conv12)) (Some ''2'') = Inr 0"
    by simp
  moreover have "getUnreadCount_js [(Some ''1'', 0), (Some ''2'', 4)] (Some ''2'') = Inr 4"
  proof -
    have "getUnreadCount (conv12\<lparr>unreadCount := [(''1'', 0), (''2'', 4)]\<rparr>) ''2'' = 4"
      by (simp add: getUnreadCount_def)
    with reads_default_without_entry
           [of _ "''2''" _ _ "conv12\<lparr>unreadCount := [(''1'', 0), (''2'', 4)]\<rparr>"]
    show ?thesis by (simp add: entries_of_def)
  qed
  ultimately show ?thesis using sv no no' by simp
qed

section \<open>Read receipts\<close>

lemma list_ex_fst: "list_ex (\<lambda>r. fst r = u) xs \<longleftrightarrow> u \<in> fst ` set xs"
  by (induction xs) auto

lemma filter_absent: "u \<notin> fst ` set xs \<Longrightarrow> filter (\<lambda>r. fst r = u) xs = []"
  by (induction xs) auto

lemma filter_distinct_present:
  "distinct (map fst xs) \<Longrightarrow> u \<in> fst ` set xs \<Longrightarrow> length (filter (\<lambda>r. fst r = u) xs) = 1"
  by (induction xs) (auto simp: filter_absent)

lemma markAsRead_present: "isReadBy (markAsRead m u t) u"
  by (auto simp: markAsRead_def isReadBy_def Let_def)

lemma markAsRead_distinct:
  "distinct (map fst (readBy m)) \<Longrightarrow> distinct (map fst (readBy (markAsRead m u t)))"
  by (auto simp: markAsRead_def Let_def list_ex_fst)

text \<open>The save that ends \<^verbatim>\<open>markAsRead\<close> passes the validators when the message did.\<close>

lemma markAsRead_valid: "validate_message m \<Longrightarrow> validate_message (markAsRead m u t)"
  by (auto simp: markAsRead_def Let_def validate_message_def)

text \<open>
  C5. \<^verbatim>\<open>markAsRead\<close> is idempotent: marking a message read a second time by the same
  user changes nothing, and the user is a reader after the first time. On a message
  whose read list names no reader twice (a message as created has an empty one), the two
  calls leave exactly one read entry of the user, and still no reader twice.
\<close>

theorem markAsRead_idempotent:
  "markAsRead (markAsRead m userId t1) userId t2 = markAsRead m userId t1
   \<and> isReadBy (markAsRead m userId t1) userId
   \<and> (distinct (map fst (readBy m)) \<longrightarrow>
        length (filter (\<lambda>read. fst read = userId)
                  (readBy (markAsRead (markAsRead m userId t1) userId t2))) = 1
        \<and> distinct (map fst (readBy (markAsRead (markAsRead m userId t1) userId t2))))"
proof (intro conjI impI)
  show idem: "markAsRead (markAsRead m userId t1) userId t2 = markAsRead m userId t1"
    using markAsRead_present [of m userId t1]
    by (simp add: markAsRead_def [of "markAsRead m userId t1"] isReadBy_def)
  show "isReadBy (markAsRead m userId t1) userId" by (rule markAsRead_present)
  assume d: "distinct (map fst (readBy m))"
  then have d1: "distinct (map fst (readBy (markAsRead m userId t1)))"
    by (rule markAsRead_distinct)
  moreover have "userId \<in> fst ` set (readBy (markAsRead m userId t1))"
    using markAsRead_present [of m userId t1] by (simp add: isReadBy_def list_ex_fst)
  ultimately show "length (filter (\<lambda>read. fst read = userId)
                  (readBy (markAsRead (markAsRead m userId t1) userId t2))) = 1"
    by (simp add: idem filter_distinct_present)
  from d1 show "distinct (map fst (readBy (markAsRead (markAsRead m userId t1) userId t2)))"
    by (simp add: idem)
qed

theorem markAsRead_idempotent_witness:
  "distinct (map fst (readBy msg1))
   \<and> markAsRead msg1 ''2'' 20 = msg1\<lparr>readBy := [(''2'', 20)]\<rparr>
   \<and> markAsRead (markAsRead msg1 ''2'' 20) ''2'' 30 = msg1\<lparr>readBy := [(''2'', 20)]\<rparr>
   \<and> length (filter (\<lambda>read. fst read = ''2'')
               (readBy (markAsRead (markAsRead msg1 ''2'' 20) ''2'' 30))) = 1"
proof -
  have a: "distinct (map fst (readBy msg1))" by (simp add: msg1_def)
  have b: "markAsRead msg1 ''2'' 20 = msg1\<lparr>readBy := [(''2'', 20)]\<rparr>"
    by (simp add: markAsRead_def msg1_def)
  from markAsRead_idempotent [of msg1 "''2''" 20 30] a b show ?thesis by simp
qed

section \<open>Soft delete\<close>

lemma js_trim_tombstone: "js_trim tombstone = tombstone"
  by (simp add: js_trim_def tombstone_def is_js_space_def)

lemma softDelete_eq:
  "softDelete m now = m\<lparr>isDeleted := True, deletedAt := Some now, content := Some tombstone\<rparr>"
  by (simp add: softDelete_def js_trim_tombstone)

lemma softDelete_valid: "validate_message (softDelete m now)"
  by (simp add: softDelete_eq validate_message_def tombstone_def)

lemma find_replaced:
  "find (\<lambda>x. m_id x = i) xs = Some m \<Longrightarrow> m_id m' = i \<Longrightarrow>
   find (\<lambda>x. m_id x = i) (map (\<lambda>x. if m_id x = i then m' else x) xs) = Some m'"
  by (induction xs) (auto split: if_splits)

lemma findById_updated:
  "Message_findById s i = Some m \<Longrightarrow> m_id m' = i \<Longrightarrow>
   Message_findById (update_message s m') i = Some m'"
  by (simp add: Message_findById_def update_message_def find_replaced)

lemma findById_id: "Message_findById s i = Some m \<Longrightarrow> m_id m = i"
  by (auto simp: Message_findById_def find_Some_iff)

lemma recent_subset:
  "e \<in> set (getRecentMessages s cid limit) \<Longrightarrow>
   fst e \<in> set (messages s) \<and> conversation (fst e) = cid \<and> isDeleted (fst e) = False"
  by (auto simp: getRecentMessages_def Let_def split: if_splits dest!: in_set_takeD)

lemma updated_deleted:
  "x \<in> set (messages (update_message s m')) \<Longrightarrow> isDeleted m' \<Longrightarrow> m_id x = m_id m' \<Longrightarrow>
   isDeleted x"
  by (auto simp: update_message_def split: if_splits)

lemma stored_msg1: "Message_findById store_msgs ''m1'' = Some msg1"
  by (simp add: Message_findById_def store_msgs_def msg1_def msg2_def)

lemma recent_before_delete:
  "getRecentMessages store_msgs ''c1'' 50 = [(msg2, Some (Some ''hi'', ''1'')), (msg1, None)]"
  by (simp add: getRecentMessages_def populate_replyTo_def Message_findById_def store_msgs_def
        msg1_def msg2_def)

lemma recent_after_delete:
  "getRecentMessages (update_message store_msgs (softDelete msg1 30)) ''c1'' 50
     = [(msg2, Some (Some tombstone, ''1''))]"
  by (simp add: getRecentMessages_def populate_replyTo_def Message_findById_def store_msgs_def
        msg1_def msg2_def update_message_def softDelete_eq)

text \<open>
  C4. For a message \<open>m\<close> stored under the id \<open>i\<close>: \<^verbatim>\<open>softDelete\<close> sets the content to the
  fixed tombstone, the deleted flag and the deletion time, and the document passes the
  validators of the save. Once that document is written, no listing of
  \<^verbatim>\<open>getRecentMessages\<close> holds a message of id \<open>i\<close>; a lookup by id still returns the
  message, and a reply that refers to \<open>i\<close> resolves to the tombstone and the sender.
\<close>

theorem softDelete_tombstone:
  assumes "Message_findById s i = Some m"
  shows "softDelete m now = m\<lparr>isDeleted := True, deletedAt := Some now, content := Some tombstone\<rparr>
     \<and> validate_message (softDelete m now)
     \<and> (\<forall>cid limit. \<forall>e \<in> set (getRecentMessages (update_message s (softDelete m now)) cid limit).
           m_id (fst e) \<noteq> i)
     \<and> Message_findById (update_message s (softDelete m now)) i = Some (softDelete m now)
     \<and> (\<forall>r. replyTo r = Some i \<longrightarrow>
           populate_replyTo (update_message s (softDelete m now)) r
             = Some (Some tombstone, sender m))"
proof -
  let ?m' = "softDelete m now"
  let ?s' = "update_message s ?m'"
  have idm: "m_id m = i" using assms by (rule findById_id)
  have idm': "m_id ?m' = i" using idm by (simp add: softDelete_eq)
  have del: "isDeleted ?m'" by (simp add: softDelete_eq)
  have fetch: "Message_findById ?s' i = Some ?m'"
    using assms idm' by (rule findById_updated)
  have recent: "\<forall>cid limit. \<forall>e \<in> set (getRecentMessages ?s' cid limit). m_id (fst e) \<noteq> i"
  proof (intro allI ballI notI)
    fix cid limit e
    assume e: "e \<in> set (getRecentMessages ?s' cid limit)" and "m_id (fst e) = i"
    from recent_subset [OF e] have "fst e \<in> set (messages ?s')" "isDeleted (fst e) = False"
      by auto
    with updated_deleted [of "fst e" s ?m'] del idm' \<open>m_id (fst e) = i\<close> show False by simp
  qed
  have reply: "\<forall>r. replyTo r = Some i \<longrightarrow>
                 populate_replyTo ?s' r = Some (Some tombstone, sender m)"
    using fetch by (simp add: populate_replyTo_def softDelete_eq)
  from fetch recent reply show ?thesis
    using softDelete_eq [of m now] softDelete_valid [of m now] by blast
qed

theorem softDelete_tombstone_witness:
  "Message_findById store_msgs ''m1'' = Some msg1
   \<and> content (softDelete msg1 30) = Some ''This message was deleted''
   \<and> getRecentMessages store_msgs ''c1'' 50 = [(msg2, Some (Some ''hi'', ''1'')), (msg1, None)]
   \<and> getRecentMessages (update_message store_msgs (softDelete msg1 30)) ''c1'' 50
       = [(msg2, Some (Some ''This message was deleted'', ''1''))]
   \<and> Message_findById (update_message store_msgs (softDelete msg1 30)) ''m1''
       = Some (softDelete msg1 30)"
proof -
  from softDelete_tombstone [OF stored_msg1, of 30]
  have a: "softDelete msg1 30
             = msg1\<lparr>isDeleted := True, deletedAt := Some 30, content := Some tombstone\<rparr>"
    and b: "Message_findById (update_message store_msgs (softDelete msg1 30)) ''m1''
              = Some (softDelete msg1 30)"
    by blast+
  from a have "content (softDelete msg1 30) = Some ''This message was deleted''"
    by (simp add: tombstone_def)
  with b stored_msg1 recent_before_delete recent_after_delete show ?thesis
    by (simp only: tombstone_def simp_thms)
qed

section \<open>Room membership\<close>

lemma list_ex_user:
  "list_ex (\<lambda>m. ref_toString (user m) = u) xs \<longleftrightarrow> u \<in> (\<lambda>m. ref_toString (user m)) ` set xs"
  by (induction xs) auto

lemma filter_absent_user:
  "u \<notin> (\<lambda>m. ref_toString (user m)) ` set xs \<Longrightarrow>
   filter (\<lambda>m. ref_toString (user m) \<noteq> u) xs = xs"
  by (induction xs) auto

lemma find_absent_user:
  "u \<notin> (\<lambda>m. ref_toString (user m)) ` set xs \<Longrightarrow>
   find (\<lambda>m. ref_toString (user m) = u) xs = None"
  by (induction xs) auto
















text \<open>
  C7, as claimed, fails: \<^verbatim>\<open>removeMember\<close> of a user who is not a member of \<open>room1\<close>
  does not fail with \<open>NotAMember\<close>; it succeeds and leaves the room as it was.
\<close>

theorem removeMember_absent_counterexample:
  "isMember room1 ''2'' = False \<and> removeMember room1 ''2'' = Inr room1
   \<and> removeMember room1 ''2'' \<noteq> Inl NotAMember"
  by (simp add: isMember_def removeMember_def room1_def)

text \<open>
  C7, amended. For every room and every user who is not in the member list,
  \<^verbatim>\<open>updateMemberRole\<close> fails with \<open>NotAMember\<close>, and \<^verbatim>\<open>removeMember\<close> succeeds and
  leaves the room unchanged.
\<close>

theorem absent_member_operations:
  "\<not> isMember r userId \<Longrightarrow>
     updateMemberRole r userId newRole = Inl NotAMember \<and> removeMember r userId = Inr r"
  by (simp add: isMember_def list_ex_user updateMemberRole_def removeMember_def
        filter_absent_user find_absent_user)

theorem absent_member_operations_witness:
  "isMember room1 ''2'' = False
   \<and> updateMemberRole room1 ''2'' Admin = Inl NotAMember
   \<and> removeMember room1 ''2'' = Inr room1"
proof -
  have "\<not> isMember room1 ''2''" by (simp add: isMember_def room1_def)
  from this absent_member_operations [OF this, of Admin] show ?thesis by simp
qed

section \<open>Invite codes\<close>

lemma length_chars: "length chars = 36"
  by (simp add: chars_def)

lemma charAt_draw:
  assumes "0 \<le> x" "x < 1"
  shows "\<exists>ch. charAt chars \<lfloor>x * real (length chars)\<rfloor> = [ch] \<and> ch \<in> set chars"
proof -
  define k where "k = \<lfloor>x * 36\<rfloor>"
  have "0 \<le> x * 36" using assms by simp
  then have lo: "0 \<le> k" by (simp add: k_def)
  have "x * 36 < 36" using assms by simp
  then have hi: "k < 36" by (simp add: k_def floor_less_iff)
  from lo hi have "nat k < length chars" by (simp add: length_chars)
  then have "chars ! nat k \<in> set chars" by (rule nth_mem)
  with lo hi have "charAt chars k = [chars ! nat k] \<and> chars ! nat k \<in> set chars"
    by (simp add: charAt_def length_chars)
  then show ?thesis by (auto simp: length_chars k_def)
qed

lemma generateInviteCode_loop_shape:
  "i \<le> 8 \<Longrightarrow> (\<forall>j. i \<le> j \<and> j < 8 \<longrightarrow> 0 \<le> rnd j \<and> rnd j < 1) \<Longrightarrow>
   length (generateInviteCode_loop rnd i code) = length code + (8 - i)
   \<and> set (generateInviteCode_loop rnd i code) \<subseteq> set code \<union> set chars"
proof (induction rnd i code rule: generateInviteCode_loop.induct)
  case (1 rnd i code)
  show ?case
  proof (cases "i < 8")
    case False
    then have "generateInviteCode_loop rnd i code = code"
      by (subst generateInviteCode_loop.simps) simp
    with False "1.prems" show ?thesis by auto
  next
    case True
    with "1.prems" have "0 \<le> rnd i" "rnd i < 1" by auto
    then obtain ch where
      ch: "charAt chars \<lfloor>rnd i * real (length chars)\<rfloor> = [ch]" "ch \<in> set chars"
      using charAt_draw by blast
    from True "1.prems"
    have "i + 1 \<le> 8" "\<forall>j. i + 1 \<le> j \<and> j < 8 \<longrightarrow> 0 \<le> rnd j \<and> rnd j < 1"
      by auto
    from "1.IH" [OF True this] ch True show ?thesis
      by (subst (1 2) generateInviteCode_loop.simps) auto
  qed
qed

lemma draws_O0I1_range: "0 \<le> draws_O0I1 i \<and> draws_O0I1 i < 1"
  by (simp add: draws_O0I1_def)

lemma loop_O0I1: "generateInviteCode_loop draws_O0I1 0 [] = ''O0I1O0I1''"
  by (simp add: generateInviteCode_loop.simps [of _ _ "[]"]
        generateInviteCode_loop.simps [of _ _ "_ # _"] draws_O0I1_def charAt_def chars_def)

text \<open>
  C9, as claimed, fails: the alphabet of \<^verbatim>\<open>generateInviteCode\<close> holds the look-alikes
  O and 0, I and 1, and with the draws \<open>draws_O0I1\<close> the code is \<open>O0I1O0I1\<close>, all of it
  look-alikes.
\<close>

theorem generateInviteCode_ambiguous_counterexample:
  "inviteCode (generateInviteCode room1 draws_O0I1) = Some ''O0I1O0I1''
   \<and> spec_unambiguous ''O0I1O0I1'' = False
   \<and> spec_unambiguous chars = False"
  by (simp add: generateInviteCode_def loop_O0I1 spec_unambiguous_def spec_lookalike_def
        chars_def)

text \<open>
  C9, amended. When every result of \<^verbatim>\<open>Math.random()\<close> is in the interval from 0 to 1,
  1 excluded, \<^verbatim>\<open>generateInviteCode\<close> sets a code of exactly 8 characters, each one of the
  36 characters \<open>A\<close> to \<open>Z\<close> and \<open>0\<close> to \<open>9\<close> of \<open>chars\<close>.
\<close>

theorem generateInviteCode_shape:
  assumes "\<forall>i. i < 8 \<longrightarrow> 0 \<le> rnd i \<and> rnd i < 1"
  shows "\<exists>code. inviteCode (generateInviteCode r rnd) = Some code
           \<and> length code = 8 \<and> set code \<subseteq> set chars
           \<and> chars = ''ABCDEFGHIJKLMNOPQRSTUVWXYZ0123456789''"
proof -
  from generateInviteCode_loop_shape [of 0 rnd "[]"] assms
  have "length (generateInviteCode_loop rnd 0 []) = 8
        \<and> set (generateInviteCode_loop rnd 0 []) \<subseteq> set chars"
    by simp
  moreover have "chars = ''ABCDEFGHIJKLMNOPQRSTUVWXYZ0123456789''"
    by (simp add: chars_def)
  ultimately show ?thesis
    unfolding generateInviteCode_def by simp
qed

theorem generateInviteCode_shape_witness:
  "inviteCode (generateInviteCode room1 draws_O0I1) = Some ''O0I1O0I1''
   \<and> length ''O0I1O0I1'' = 8 \<and> set ''O0I1O0I1'' \<subseteq> set chars"
proof -
  have "\<forall>i. i < 8 \<longrightarrow> 0 \<le> draws_O0I1 i \<and> draws_O0I1 i < 1"
    using draws_O0I1_range by blast
  from generateInviteCode_shape [OF this, of room1]
  show ?thesis by (simp add: generateInviteCode_def loop_O0I1)
qed

section \<open>Finding or creating a conversation\<close>

lemma sort_pair_commute: "sort [a, b :: string] = sort [b, a]"
  by auto

lemma sort_pair_length: "length (sort [a, b :: string]) = 2"
  by simp

lemma matches_own_participants:
  "length ps = 2 \<Longrightarrow> participants c = ps \<Longrightarrow> matches_all_size2 ps c"
  by (simp add: matches_all_size2_def list_all_iff)

lemma find_append_last: "find p xs = None \<Longrightarrow> p y \<Longrightarrow> find p (xs @ [y]) = Some y"
  by (induction xs) (auto split: if_splits)

lemma findOrCreate_found:
  "find (matches_all_size2 (sort [a, b])) (conversations s) = Some c0 \<Longrightarrow>
   findOrCreate s a b i t = (Inr (hydrate c0), s)"
  by (simp add: findOrCreate_def Conversation_findOne_def)

lemma findOrCreate_created:
  fixes i :: objectId and t :: date
  assumes "find (matches_all_size2 (sort [a, b])) (conversations s) = None"
  defines "c' \<equiv> \<lparr>c_id = i, participants = sort [a, b], lastMessage = None, lastMessageAt = t,
                  unreadCount = map (\<lambda>u. (u, 0)) (sort [a, b]),
                  isArchived = map (\<lambda>u. (u, False)) (sort [a, b]),
                  isPinned = map (\<lambda>u. (u, False)) (sort [a, b]), typingUsers = [],
                  isNew = False\<rparr>"
  shows "findOrCreate s a b i t = (Inr c', insert_conversation s c')"
    and "find (matches_all_size2 (sort [a, b])) (conversations (insert_conversation s c'))
           = Some c'"
    and "hydrate c' = c'"
proof -
  let ?ps = "sort [a, b]"
  have len: "length ?ps = 2" by (rule sort_pair_length)
  let ?d = "\<lparr>c_id = i, participants = ?ps, lastMessage = None, lastMessageAt = t,
             unreadCount = [], isArchived = [], isPinned = [], typingUsers = [],
             isNew = True\<rparr>"
  have "length (participants ?d) = 2" using len by simp
  from save_two [OF this] have sv: "save ?d = Inr c'"
    by (simp add: c'_def)
  have "Conversation_create s ?ps i t = (Inr c', insert_conversation s c')"
    unfolding Conversation_create_def sv by simp
  with assms(1) show "findOrCreate s a b i t = (Inr c', insert_conversation s c')"
    by (simp add: findOrCreate_def Conversation_findOne_def)
  have "matches_all_size2 ?ps c'"
    using len by (intro matches_own_participants) (simp_all add: c'_def)
  with assms(1)
  show "find (matches_all_size2 ?ps) (conversations (insert_conversation s c')) = Some c'"
    by (simp add: insert_conversation_def find_append_last)
  show "hydrate c' = c'" by (simp add: hydrate_def c'_def)
qed

lemma matches_pair:
  "matches_all_size2 (sort [a, b]) x \<longleftrightarrow>
     a \<in> set (participants x) \<and> b \<in> set (participants x) \<and> length (participants x) = 2"
proof -
  have "set (sort [a, b]) = {a, b}" by auto
  then show ?thesis by (auto simp: matches_all_size2_def list_all_iff)
qed

lemma list_ex_find: "list_ex p xs \<longleftrightarrow> find p xs \<noteq> None"
  by (induction xs) auto

lemma list_ex_pair:
  "list_ex (\<lambda>x. a \<in> set (participants x) \<and> b \<in> set (participants x)
                 \<and> length (participants x) = 2) xs
     \<longleftrightarrow> find (matches_all_size2 (sort [a, b])) xs \<noteq> None"
proof -
  have "(\<lambda>x. a \<in> set (participants x) \<and> b \<in> set (participants x)
              \<and> length (participants x) = 2) = matches_all_size2 (sort [a, b])"
    by (rule ext) (simp only: matches_pair)
  then show ?thesis by (simp only: list_ex_find)
qed

lemma findOrCreate_first_contact:
  "findOrCreate store78 ''2'' ''1'' ''c1'' 0 = (Inr conv12, store78_12)"
  by (simp add: findOrCreate_def Let_def Conversation_findOne_def Conversation_create_def
        matches_all_size2_def save_def pre_save_def store78_def store78_12_def conv78_def
        conv12_def insert_conversation_def)

text \<open>
  C2. For every store and every two users \<open>a\<close> and \<open>b\<close>, \<^verbatim>\<open>findOrCreate(a, b)\<close> and
  \<^verbatim>\<open>findOrCreate(b, a)\<close> succeed with the same conversation and the same store; that
  conversation has two participants, \<open>a\<close> and \<open>b\<close> among them, and is a document of the
  store. Called again on that store, in either order, the operation returns the same
  conversation and leaves the store as it is. When the store already held a conversation
  of two participants with \<open>a\<close> and \<open>b\<close>, nothing is created: the store is unchanged.
  Otherwise the one new conversation, with the fresh id and the sorted pair as its
  participants, is appended. (Calls are one after the other.)
\<close>

theorem findOrCreate_same_record:
  "\<exists>c s1. findOrCreate s a b i1 t1 = (Inr c, s1)
        \<and> findOrCreate s b a i1 t1 = (Inr c, s1)
        \<and> findOrCreate s1 a b i2 t2 = (Inr c, s1)
        \<and> findOrCreate s1 b a i2 t2 = (Inr c, s1)
        \<and> a \<in> set (participants c) \<and> b \<in> set (participants c)
        \<and> length (participants c) = 2
        \<and> (\<exists>x \<in> set (conversations s1). hydrate x = c)
        \<and> length (conversations s1) \<le> length (conversations s) + 1
        \<and> (if list_ex (\<lambda>x. a \<in> set (participants x) \<and> b \<in> set (participants x)
                             \<and> length (participants x) = 2) (conversations s)
            then s1 = s
            else s1 = insert_conversation s c \<and> c_id c = i1 \<and> participants c = sort [a, b])"
proof (cases "find (matches_all_size2 (sort [a, b])) (conversations s)")
  case (Some c0)
  then have "findOrCreate s a b i t = (Inr (hydrate c0), s)" for i t
    by (rule findOrCreate_found)
  moreover from Some have "findOrCreate s b a i t = (Inr (hydrate c0), s)" for i t
    by (intro findOrCreate_found) (simp only: sort_pair_commute [of b a])
  moreover from Some have in_s: "c0 \<in> set (conversations s)"
    and m: "matches_all_size2 (sort [a, b]) c0"
    by (auto simp: find_Some_iff)
  moreover from m [unfolded matches_pair] have "a \<in> set (participants (hydrate c0))"
      "b \<in> set (participants (hydrate c0))" "length (participants (hydrate c0)) = 2"
    by (simp_all add: hydrate_def)
  moreover from Some have "list_ex (\<lambda>x. a \<in> set (participants x) \<and> b \<in> set (participants x)
                             \<and> length (participants x) = 2) (conversations s)"
    by (simp only: list_ex_pair) simp
  ultimately show ?thesis by auto
next
  case None
  define c' where "c' = \<lparr>c_id = i1, participants = sort [a, b], lastMessage = None,
                  lastMessageAt = t1,
                  unreadCount = map (\<lambda>u. (u, 0)) (sort [a, b]),
                  isArchived = map (\<lambda>u. (u, False)) (sort [a, b]),
                  isPinned = map (\<lambda>u. (u, False)) (sort [a, b]), typingUsers = [],
                  isNew = False\<rparr>"
  define s1 where "s1 = insert_conversation s c'"
  from findOrCreate_created [OF None, of i1 t1]
  have ab: "findOrCreate s a b i1 t1 = (Inr c', s1)"
    and fnd: "find (matches_all_size2 (sort [a, b])) (conversations s1) = Some c'"
    and hyd: "hydrate c' = c'"
    by (simp_all add: c'_def s1_def)
  have comm: "sort [b, a] = sort [a, b]" by (rule sort_pair_commute)
  from None have None': "find (matches_all_size2 (sort [b, a])) (conversations s) = None"
    by (simp only: comm)
  from findOrCreate_created(1) [OF None', of i1 t1]
  have ba: "findOrCreate s b a i1 t1 = (Inr c', s1)"
    unfolding comm c'_def s1_def .
  from fnd have ab2: "findOrCreate s1 a b i2 t2 = (Inr c', s1)"
    using findOrCreate_found [of a b s1 c' i2 t2] hyd by simp
  from fnd have "find (matches_all_size2 (sort [b, a])) (conversations s1) = Some c'"
    by (simp only: comm)
  then have ba2: "findOrCreate s1 b a i2 t2 = (Inr c', s1)"
    using findOrCreate_found [of b a s1 c' i2 t2] hyd by simp
  have in_s1: "c' \<in> set (conversations s1)" by (simp add: s1_def insert_conversation_def)
  have len: "length (conversations s1) \<le> length (conversations s) + 1"
    by (simp add: s1_def insert_conversation_def)
  have "set (sort [a, b]) = {a, b}" by auto
  then have parts: "a \<in> set (participants c')" "b \<in> set (participants c')"
      "length (participants c') = 2"
    by (simp_all add: c'_def)
  from None have none: "\<not> list_ex (\<lambda>x. a \<in> set (participants x) \<and> b \<in> set (participants x)
                             \<and> length (participants x) = 2) (conversations s)"
    by (simp only: list_ex_pair) simp
  have new: "s1 = insert_conversation s c' \<and> c_id c' = i1 \<and> participants c' = sort [a, b]"
    by (simp add: s1_def c'_def)
  from ab ba ab2 ba2 parts in_s1 hyd len none new show ?thesis
    by (intro exI [of _ c'] exI [of _ s1]) (simp, blast)
qed

theorem findOrCreate_same_record_witness:
  "findOrCreate store78 ''2'' ''1'' ''c1'' 0 = (Inr conv12, store78_12)
   \<and> findOrCreate store78 ''1'' ''2'' ''c1'' 0 = (Inr conv12, store78_12)
   \<and> findOrCreate store78_12 ''2'' ''1'' ''c2'' 5 = (Inr conv12, store78_12)
   \<and> findOrCreate store78_12 ''1'' ''2'' ''c2'' 5 = (Inr conv12, store78_12)
   \<and> participants conv12 = [''1'', ''2'']
   \<and> conversations store78_12 = [conv78, conv12]"
proof -
  from findOrCreate_same_record [of store78 "''2''" "''1''" "''c1''" 0 "''c2''" 5]
  obtain c s1 where
    "findOrCreate store78 ''2'' ''1'' ''c1'' 0 = (Inr c, s1)"
    "findOrCreate store78 ''1'' ''2'' ''c1'' 0 = (Inr c, s1)"
    "findOrCreate s1 ''2'' ''1'' ''c2'' 5 = (Inr c, s1)"
    "findOrCreate s1 ''1'' ''2'' ''c2'' 5 = (Inr c, s1)"
    by blast
  moreover from this(1) have "c = conv12" "s1 = store78_12"
    by (simp_all add: findOrCreate_first_contact)
  moreover have "participants conv12 = [''1'', ''2'']" by (simp add: conv12_def)
  moreover have "conversations store78_12 = [conv78, conv12]" by (simp add: store78_12_def)
  ultimately show ?thesis by simp
qed

section \<open>Sending a message in a conversation\<close>

lemma find_replaced_conv:
  "find (\<lambda>x. c_id x = i) xs = Some c \<Longrightarrow> c_id c' = i \<Longrightarrow>
   find (\<lambda>x. c_id x = i) (map (\<lambda>x. if c_id x = i then c' else x) xs) = Some c'"
  by (induction xs) (auto split: if_splits)

lemma Conversation_findById_facts:
  assumes "Conversation_findById s i = Some conv"
  shows "c_id conv = i" and "isNew conv = False"
    and "\<exists>c. find (\<lambda>x. c_id x = i) (conversations s) = Some c"
  using assms by (auto simp: Conversation_findById_def hydrate_def find_Some_iff)

lemma updateLastMessage_loaded:
  assumes "isNew conv = False" and "updateLastMessage conv mid now = Inr conv'"
  shows "conv' = conv\<lparr>lastMessage := Some mid, lastMessageAt := now\<rparr>"
proof -
  let ?c = "conv\<lparr>lastMessage := Some mid, lastMessageAt := now\<rparr>"
  from assms(2) have sv: "save ?c = Inr conv'" by (simp add: updateLastMessage_def)
  then have "length (participants ?c) = 2" by (rule save_Inr_participants)
  from save_two [OF this] sv assms(1) show ?thesis by simp
qed

lemma send_hi:
  "send_conversation store12 ''1'' ''c1'' (Some ''hi'') ''m1'' 10 11
     = (ReplySuccess msg1, store12_sent)"
  by (simp add: send_conversation_def Let_def Conversation_findById_def hydrate_def
        Message_create_def js_trim_def is_js_space_def validate_message_def insert_message_def
        updateLastMessage_def save_def pre_save_def update_conversation_def
        store12_def conv12_def msg1_def store12_sent_def)

text \<open>
  A send succeeds when the conversation exists and has two participants, the sender is
  one of them, and the trimmed content is neither empty nor longer than 5000.
\<close>

lemma send_conversation_succeeds:
  assumes "Conversation_findById s conversationId = Some conv"
    and "userId \<in> set (participants conv)"
    and "length (participants conv) = 2"
    and "js_trim b \<noteq> []" and "length (js_trim b) \<le> 5000"
  shows "\<exists>m s'. send_conversation s userId conversationId (Some b) newId createdNow updatedNow
                  = (ReplySuccess m, s')"
  using assms
  by (simp add: send_conversation_def Message_create_def validate_message_def Let_def
        updateLastMessage_def save_two)

text \<open>
  C1, as claimed, fails: user \<open>1\<close> sends \<open>hi\<close> in the conversation with user \<open>2\<close>, the
  send succeeds, and the unread count of user \<open>2\<close>, the other participant, is 0 before
  and 0 after, not 1.
\<close>

theorem send_conversation_unread_counterexample:
  "send_conversation store12 ''1'' ''c1'' (Some ''hi'') ''m1'' 10 11
     = (ReplySuccess msg1, store12_sent)
   \<and> getOtherParticipant conv12 ''1'' = Some ''2''
   \<and> stored_unread store12 ''c1'' ''2'' = Some 0
   \<and> stored_unread store12_sent ''c1'' ''2'' = Some 0
   \<and> stored_unread store12_sent ''c1'' ''2'' \<noteq> Some (0 + 1)"
proof -
  have "getOtherParticipant conv12 ''1'' = Some ''2''"
    by (simp add: getOtherParticipant_def conv12_def)
  moreover have "stored_unread store12 ''c1'' ''2'' = Some 0"
    by (simp add: stored_unread_def Conversation_findById_def hydrate_def getUnreadCount_def
          store12_def conv12_def)
  moreover have "stored_unread store12_sent ''c1'' ''2'' = Some 0"
    by (simp add: stored_unread_def Conversation_findById_def hydrate_def getUnreadCount_def
          store12_sent_def conv12_def)
  ultimately show ?thesis using send_hi by simp
qed

text \<open>
  C1, amended. When the send of a conversation message by \<open>userId\<close> succeeds, the
  conversation exists and \<open>userId\<close> is one of its participants; the message, with the
  trimmed content, is appended to the stored messages; the stored conversation has the
  message as its last message and the time of the update as its last activity; the
  message is pushed on the channel of the conversation; and the unread count of every
  user in that conversation is what it was before the send.
\<close>

theorem send_conversation_effect:
  assumes "send_conversation s userId conversationId body newId createdNow updatedNow
             = (ReplySuccess m, s')"
  shows "\<exists>conv. Conversation_findById s conversationId = Some conv
           \<and> userId \<in> set (participants conv)
           \<and> m = \<lparr>m_id = newId, sender = userId, conversation = conversationId,
                   content = map_option js_trim body, messageType = TextMsg, attachments = [],
                   readBy = [], isEdited = False, editedAt = None, isDeleted = False,
                   deletedAt = None, replyTo = None, createdAt = createdNow\<rparr>
           \<and> messages s' = messages s @ [m]
           \<and> Conversation_findById s' conversationId
                = Some (conv\<lparr>lastMessage := Some (m_id m), lastMessageAt := updatedNow\<rparr>)
           \<and> (\<forall>u. stored_unread s' conversationId u = stored_unread s conversationId u)
           \<and> emitted s' = emitted s @ [(''conversation:'' @ conversationId, ''message:new'', m)]"
proof -
  from assms obtain conv where conv: "Conversation_findById s conversationId = Some conv"
    by (auto simp: send_conversation_def split: option.splits)
  note facts = Conversation_findById_facts [OF conv]
  from assms conv have mem: "userId \<in> set (participants conv)"
    by (auto simp: send_conversation_def split: if_splits)
  let ?m = "\<lparr>m_id = newId, sender = userId, conversation = conversationId,
                   content = map_option js_trim body, messageType = TextMsg, attachments = [],
                   readBy = [], isEdited = False, editedAt = None, isDeleted = False,
                   deletedAt = None, replyTo = None, createdAt = createdNow\<rparr>"
  have cr: "Message_create s userId conversationId body TextMsg newId createdNow
              = (if validate_message ?m then (Inr ?m, insert_message s ?m)
                 else (Inl ValidationFailure, s))"
    by (simp add: Message_create_def Let_def)
  from assms conv mem have valid: "validate_message ?m"
    by (auto simp: send_conversation_def cr split: if_splits)
  with cr have cr': "Message_create s userId conversationId body TextMsg newId createdNow
              = (Inr ?m, insert_message s ?m)" by simp
  from assms conv mem obtain conv' where
    up: "updateLastMessage conv newId updatedNow = Inr conv'"
    by (auto simp: send_conversation_def cr' split: sum.splits)
  from updateLastMessage_loaded [OF facts(2) up]
  have conv': "conv' = conv\<lparr>lastMessage := Some newId, lastMessageAt := updatedNow\<rparr>" .
  from assms conv mem up have m: "m = ?m"
    and s': "s' = (update_conversation (insert_message s ?m) conv')
                    \<lparr>emitted := emitted (update_conversation (insert_message s ?m) conv')
                       @ [(''conversation:'' @ conversationId, ''message:new'', ?m)]\<rparr>"
    by (auto simp: send_conversation_def cr' Let_def)
  have id': "c_id conv' = conversationId" using facts(1) conv' by simp
  from facts(3) obtain c0 where
    c0: "find (\<lambda>x. c_id x = conversationId) (conversations s) = Some c0"
    by blast
  have cs': "conversations s'
               = map (\<lambda>x. if c_id x = conversationId then conv' else x) (conversations s)"
    by (simp add: s' update_conversation_def insert_message_def id')
  have hyd: "hydrate conv' = conv'"
    using facts(2) by (simp add: conv' hydrate_def)
  have fnd: "Conversation_findById s' conversationId = Some conv'"
    unfolding Conversation_findById_def cs' find_replaced_conv [OF c0 id']
    by (simp add: hyd)
  have unread: "\<forall>u. stored_unread s' conversationId u = stored_unread s conversationId u"
    by (simp add: stored_unread_def fnd conv conv' getUnreadCount_def)
  have msgs: "messages s' = messages s @ [m]"
    by (simp add: s' m update_conversation_def insert_message_def)
  have em: "emitted s' = emitted s @ [(''conversation:'' @ conversationId, ''message:new'', m)]"
    by (simp add: s' m update_conversation_def insert_message_def)
  from conv mem m msgs fnd unread em conv' show ?thesis by simp
qed

theorem send_conversation_effect_witness:
  "send_conversation store12 ''1'' ''c1'' (Some ''hi'') ''m1'' 10 11
     = (ReplySuccess msg1, store12_sent)
   \<and> Conversation_findById store12 ''c1'' = Some conv12
   \<and> messages store12_sent = messages store12 @ [msg1]
   \<and> Conversation_findById store12_sent ''c1''
       = Some (conv12\<lparr>lastMessage := Some ''m1'', lastMessageAt := 11\<rparr>)
   \<and> stored_unread store12_sent ''c1'' ''2'' = stored_unread store12 ''c1'' ''2''"
proof -
  have c: "Conversation_findById store12 ''c1'' = Some conv12"
    by (simp add: Conversation_findById_def hydrate_def store12_def conv12_def)
  from send_conversation_effect [OF send_hi] c
  have "messages store12_sent = messages store12 @ [msg1]"
    and "Conversation_findById store12_sent ''c1''
           = Some (conv12\<lparr>lastMessage := Some (m_id msg1), lastMessageAt := 11\<rparr>)"
    and "stored_unread store12_sent ''c1'' ''2'' = stored_unread store12 ''c1'' ''2''"
    by auto
  with send_hi c show ?thesis by (simp add: msg1_def)
qed

end
